theory Spec2Isabelle
  imports Main
begin

section \<open>Strings\<close>

text \<open>
  A Python \<open>str\<close> is a sequence of code points. It is modelled as a \<open>string\<close> whose
  characters are read as the code points U+0000 to U+00FF, one \<open>char\<close> per code point,
  so \<open>length\<close> counts what Python's \<open>len\<close> counts. The two character classes of
  \<open>mybot.py\<close> are given on that range as CPython defines them:
  \<open>str.isspace\<close> holds for TAB, LF, VT, FF, CR, the separators U+001C to U+001F, the
  space, NEL (U+0085) and the no-break space (U+00A0); \<open>str.isdigit\<close> holds for the ten
  decimal digits and for the superscript digits U+00B2, U+00B3 and U+00B9.
\<close>

definition isspace_char :: "char \<Rightarrow> bool" where
  "isspace_char c =
     (c \<in> set [CHR 0x09, CHR 0x0A, CHR 0x0B, CHR 0x0C, CHR 0x0D,
                CHR 0x1C, CHR 0x1D, CHR 0x1E, CHR 0x1F, CHR 0x20, CHR 0x85, CHR 0xA0])"

definition isdecimal_char :: "char \<Rightarrow> bool" where
  "isdecimal_char c = (c \<in> set ''0123456789'')"

definition isdigit_char :: "char \<Rightarrow> bool" where
  "isdigit_char c = (isdecimal_char c \<or> c \<in> set [CHR 0xB2, CHR 0xB3, CHR 0xB9])"

text \<open>\<open>s.strip()\<close>: leading and trailing whitespace removed.\<close>

definition strip :: "string \<Rightarrow> string" where
  "strip s = rev (dropWhile isspace_char (rev (dropWhile isspace_char s)))"

text \<open>\<open>s.startswith(prefix)\<close>.\<close>

definition startswith :: "string \<Rightarrow> string \<Rightarrow> bool" where
  "startswith s prefix = (take (length prefix) s = prefix)"

text \<open>\<open>s.isdigit()\<close>: every character is a digit and there is at least one.\<close>

definition isdigit :: "string \<Rightarrow> bool" where
  "isdigit s = (s \<noteq> [] \<and> list_all isdigit_char s)"

section \<open>The format check\<close>

text \<open>
  The condition of \<open>handle_message\<close> (line 95) and of \<open>batch_input\<close> (line 137):
  \<open>text.startswith("+") and text[1:].isdigit() and 7 <= len(text[1:]) <= 15\<close>.
\<close>

definition valid_format :: "string \<Rightarrow> bool" where
  "valid_format text =
     (startswith text ''+'' \<and> isdigit (drop 1 text)
      \<and> 7 \<le> length (drop 1 text) \<and> length (drop 1 text) \<le> 15)"

text \<open>
  The format rule in the specification's words, \<open>^\+\d{7,15}$\<close>: a leading plus sign, then
  7 to 15 decimal digits, and nothing else.
\<close>

definition matches_phone_regex :: "string \<Rightarrow> bool" where
  "matches_phone_regex s =
     (case s of
        [] \<Rightarrow> False
      | c # ds \<Rightarrow> c = CHR ''+'' \<and> 7 \<le> length ds \<and> length ds \<le> 15 \<and> list_all isdecimal_char ds)"

section \<open>The table \<open>clients\<close>\<close>

text \<open>
  \<open>init_db\<close> creates \<open>clients (username TEXT, phone_number TEXT UNIQUE, added_time TEXT)\<close>.
  A row holds, in each column, a text or NULL (\<open>None\<close>); the table is the list of its rows
  in insertion order. The UNIQUE constraint rejects a row whose \<open>phone_number\<close> is a text
  that a stored row already has; NULL never conflicts, as in SQLite.
\<close>

record client =
  username :: "string option"
  phone_number :: "string option"
  added_time :: "string option"

type_synonym database = "client list"

datatype sql_error = IntegrityError

text \<open>\<open>SELECT 1 FROM clients WHERE phone_number = ?\<close> finds a row.\<close>

definition number_exists :: "database \<Rightarrow> string \<Rightarrow> bool" where
  "number_exists db phone = (Some phone \<in> set (map phone_number db))"

definition unique_conflict :: "database \<Rightarrow> client \<Rightarrow> bool" where
  "unique_conflict db r =
     (case phone_number r of None \<Rightarrow> False | Some phone \<Rightarrow> number_exists db phone)"

text \<open>\<open>INSERT INTO clients ...\<close>: raises \<open>sqlite3.IntegrityError\<close> on a conflict.\<close>

definition sql_insert :: "database \<Rightarrow> client \<Rightarrow> sql_error + database" where
  "sql_insert db r = (if unique_conflict db r then Inl IntegrityError else Inr (db @ [r]))"

text \<open>\<open>INSERT OR IGNORE INTO clients ...\<close>: a conflicting row is dropped silently.\<close>

definition sql_insert_or_ignore :: "database \<Rightarrow> client \<Rightarrow> database" where
  "sql_insert_or_ignore db r = (if unique_conflict db r then db else db @ [r])"

definition new_client :: "string \<Rightarrow> string \<Rightarrow> string \<Rightarrow> client" where
  "new_client user phone time =
     \<lparr>username = Some user, phone_number = Some phone, added_time = Some time\<rparr>"

text \<open>
  \<open>add_number\<close> (lines 40 to 52) inserts and commits; an \<open>IntegrityError\<close> is caught and
  passed over. The function has no \<open>return\<close> statement, so its value is \<open>None\<close>.
\<close>

datatype py_value = PyNone | PyBool bool

definition add_number :: "database \<Rightarrow> string \<Rightarrow> string \<Rightarrow> string \<Rightarrow> py_value \<times> database" where
  "add_number db user phone time =
     (case sql_insert db (new_client user phone time) of
        Inl IntegrityError \<Rightarrow> (PyNone, db)
      | Inr db' \<Rightarrow> (PyNone, db'))"

section \<open>Single message\<close>

text \<open>
  \<open>handle_message\<close> (lines 89 to 111). The sender's user name may be absent or empty, and
  \<open>username or "unknown"\<close> replaces both; \<open>now\<close> is the formatted clock reading. The three
  replies carry the number they echo.
\<close>

datatype reply = Invalid_format | Already_exists string | Saved string

definition or_unknown :: "string option \<Rightarrow> string" where
  "or_unknown u = (case u of None \<Rightarrow> ''unknown'' | Some s \<Rightarrow> if s = [] then ''unknown'' else s)"

definition handle_message ::
  "database \<Rightarrow> string option \<Rightarrow> string \<Rightarrow> string \<Rightarrow> reply \<times> database" where
  "handle_message db from_user now raw =
     (let text = strip raw; user = or_unknown from_user in
      if \<not> valid_format text then (Invalid_format, db)
      else if number_exists db text then (Already_exists text, db)
      else (Saved text, snd (add_number db user text now)))"

section \<open>Batch\<close>

text \<open>
  \<open>batch_input\<close> (lines 114 to 160). Without arguments it replies with the usage text.
  Otherwise one connection serves the whole loop, so each SELECT sees the rows inserted
  before it; the commit follows the loop. The INSERT is the plain one: were it to raise,
  the exception would leave the handler before the commit.
\<close>

datatype batch_reply = Usage | Batch_result "string list" "string list" "string list"

type_synonym batch_state = "database \<times> string list \<times> string list \<times> string list"

fun batch_loop :: "string \<Rightarrow> string \<Rightarrow> string list \<Rightarrow> batch_state \<Rightarrow> sql_error + batch_state" where
  "batch_loop user time [] st = Inr st"
| "batch_loop user time (raw # rest) (conn, added_list, exists_list, invalid_list) =
     (let num = strip raw in
      if valid_format num then
        if number_exists conn num then
          batch_loop user time rest (conn, added_list, exists_list @ [num], invalid_list)
        else
          (case sql_insert conn (new_client user num time) of
             Inl e \<Rightarrow> Inl e
           | Inr conn' \<Rightarrow>
               batch_loop user time rest (conn', added_list @ [num], exists_list, invalid_list))
      else batch_loop user time rest (conn, added_list, exists_list, invalid_list @ [num]))"

definition batch_input ::
  "database \<Rightarrow> string option \<Rightarrow> string \<Rightarrow> string list \<Rightarrow> sql_error + batch_reply \<times> database" where
  "batch_input db from_user now args =
     (if args = [] then Inr (Usage, db)
      else
        (case batch_loop (or_unknown from_user) now args (db, [], [], []) of
           Inl e \<Rightarrow> Inl e
         | Inr (conn, added_list, exists_list, invalid_list) \<Rightarrow>
             Inr (Batch_result added_list exists_list invalid_list, conn)))"

section \<open>Import\<close>

text \<open>
  \<open>import_data\<close> (lines 61 to 76) receives what \<open>pd.read_excel\<close> made of the file: an
  exception, or a frame of named columns and rows of cells. A cell is the value in that
  frame, not the text in the sheet: \<open>pd.read_excel\<close>, called as it is here without
  \<open>dtype\<close>, returns NaN for an empty cell and for a text it takes for a missing value
  (\<open>NA\<close>, \<open>N/A\<close>, \<open>null\<close> and others), and numbers for a column whose texts all look
  like numbers. A cell reaches the SQLite driver as
  \<^item> a text, stored as it is;
  \<^item> an integer, stored in the TEXT column as its decimal text, and refused by the
    driver with \<open>OverflowError\<close> outside 64 bits;
  \<^item> a float other than NaN, stored in the TEXT column as a text, which the cell
    carries (\<open>11234567890.0\<close> for the float of that value);
  \<^item> NaN, stored as NULL;
  \<^item> an object the driver cannot bind, which raises.

  \<open>row[key]\<close> raises \<open>KeyError\<close> for a column the frame does not have. The three
  subscripts are evaluated before the statement runs. Any exception ends in the
  \<open>except\<close> branch, before \<open>conn.commit()\<close>: the inserts made so far are never committed
  and the table is as it was. That branch neither rolls back nor closes the
  connection; the state of the model is the committed table alone, and it does not say
  how long an abandoned connection keeps its lock.
\<close>

datatype cell = Str string | Integer int | Float string | NaN | Unbindable

datatype py_exception = ReadError | KeyError string | BindError | OverflowError

record dataframe =
  columns :: "string list"
  rows :: "cell list list"

datatype import_reply = Import_ok | Import_failed py_exception

definition getitem :: "string list \<Rightarrow> cell list \<Rightarrow> string \<Rightarrow> py_exception + cell" where
  "getitem cols row key =
     (case map_of (zip cols row) key of None \<Rightarrow> Inl (KeyError key) | Some v \<Rightarrow> Inr v)"

text \<open>The decimal text of an integer, as SQLite writes it.\<close>

fun decimal :: "nat \<Rightarrow> string" where
  "decimal n =
     (if n < 10 then [''0123456789'' ! n]
      else decimal (n div 10) @ [''0123456789'' ! (n mod 10)])"

definition int_text :: "int \<Rightarrow> string" where
  "int_text i = (if i < 0 then CHR ''-'' # decimal (nat (- i)) else decimal (nat i))"

definition bind_param :: "cell \<Rightarrow> py_exception + string option" where
  "bind_param v =
     (case v of
        Str s \<Rightarrow> Inr (Some s)
      | Integer i \<Rightarrow>
          if - (2 ^ 63) \<le> i \<and> i < 2 ^ 63 then Inr (Some (int_text i)) else Inl OverflowError
      | Float s \<Rightarrow> Inr (Some s)
      | NaN \<Rightarrow> Inr None
      | Unbindable \<Rightarrow> Inl BindError)"

text \<open>The parameter tuple of the INSERT, built from one row.\<close>

definition row_params :: "string list \<Rightarrow> cell list \<Rightarrow> py_exception + client" where
  "row_params cols row =
     (case getitem cols row ''username'' of Inl e \<Rightarrow> Inl e | Inr u \<Rightarrow>
      case getitem cols row ''phone_number'' of Inl e \<Rightarrow> Inl e | Inr p \<Rightarrow>
      case getitem cols row ''added_time'' of Inl e \<Rightarrow> Inl e | Inr t \<Rightarrow>
      case bind_param u of Inl e \<Rightarrow> Inl e | Inr u' \<Rightarrow>
      case bind_param p of Inl e \<Rightarrow> Inl e | Inr p' \<Rightarrow>
      case bind_param t of Inl e \<Rightarrow> Inl e | Inr t' \<Rightarrow>
        Inr \<lparr>username = u', phone_number = p', added_time = t'\<rparr>)"

fun import_rows :: "database \<Rightarrow> string list \<Rightarrow> cell list list \<Rightarrow> py_exception + database" where
  "import_rows conn cols [] = Inr conn"
| "import_rows conn cols (row # rest) =
     (case row_params cols row of
        Inl e \<Rightarrow> Inl e
      | Inr r \<Rightarrow> import_rows (sql_insert_or_ignore conn r) cols rest)"

definition import_data :: "database \<Rightarrow> py_exception + dataframe \<Rightarrow> import_reply \<times> database" where
  "import_data db file =
     (case file of
        Inl e \<Rightarrow> (Import_failed e, db)
      | Inr df \<Rightarrow>
          (case import_rows db (columns df) (rows df) of
             Inl e \<Rightarrow> (Import_failed e, db)
           | Inr conn \<Rightarrow> (Import_ok, conn)))"

section \<open>The handlers, one update after another\<close>

text \<open>
  \<open>main\<close> (lines 196 to 200) registers one handler per kind of update: \<open>/start\<close>, a text
  message, \<open>/batch\<close>, \<open>/export\<close> and \<open>/import\<close> with a document. \<open>start\<close> and \<open>export\<close>
  leave the table as it is. \<open>run_handler\<close> gives the table after one update.
\<close>

datatype update =
    Start_command
  | Text_message "string option" string string
  | Batch_command "string option" string "string list"
  | Export_command
  | Import_command "py_exception + dataframe"

definition run_handler :: "database \<Rightarrow> update \<Rightarrow> database" where
  "run_handler db upd =
     (case upd of
        Start_command \<Rightarrow> db
      | Text_message from_user now raw \<Rightarrow> snd (handle_message db from_user now raw)
      | Batch_command from_user now args \<Rightarrow>
          (case batch_input db from_user now args of Inl e \<Rightarrow> db | Inr (reply, db') \<Rightarrow> db')
      | Export_command \<Rightarrow> db
      | Import_command file \<Rightarrow> snd (import_data db file))"

definition is_import :: "update \<Rightarrow> bool" where
  "is_import upd = (case upd of Import_command file \<Rightarrow> True | _ \<Rightarrow> False)"

section \<open>Predicates of the properties\<close>

text \<open>No two rows carry the same \<open>phone_number\<close> text.\<close>

definition unique_phones :: "database \<Rightarrow> bool" where
  "unique_phones db = distinct (filter (\<lambda>v. v \<noteq> None) (map phone_number db))"

text \<open>Every row carries a \<open>phone_number\<close> text of the specification's format.\<close>

definition format_rule_holds :: "database \<Rightarrow> bool" where
  "format_rule_holds db =
     list_all (\<lambda>r. case phone_number r of None \<Rightarrow> False | Some phone \<Rightarrow> matches_phone_regex phone)
       db"

text \<open>
  No row of the frame has NaN in the column \<open>phone_number\<close>. That is a property of what
  \<open>pd.read_excel\<close> returned: it returns NaN for an empty cell of the sheet, and also for
  a cell whose text it takes for a missing value.
\<close>

definition no_missing_phone :: "py_exception + dataframe \<Rightarrow> bool" where
  "no_missing_phone file =
     (case file of
        Inl e \<Rightarrow> True
      | Inr df \<Rightarrow> list_all (\<lambda>row. getitem (columns df) row ''phone_number'' \<noteq> Inr NaN) (rows df))"

text \<open>The frame lacks one of the three columns that \<open>import_data\<close> reads.\<close>

definition missing_column :: "dataframe \<Rightarrow> bool" where
  "missing_column df =
     (\<not> set [''username'', ''phone_number'', ''added_time''] \<subseteq> set (columns df))"

text \<open>\<open>s.isascii()\<close>: every character is below U+0080.\<close>

definition isascii :: "string \<Rightarrow> bool" where
  "isascii s = list_all (\<lambda>c. (of_char c :: nat) < 128) s"

text \<open>The texts that an update submits as phone numbers are ASCII.\<close>

definition ascii_input :: "update \<Rightarrow> bool" where
  "ascii_input upd =
     (case upd of
        Text_message from_user now raw \<Rightarrow> isascii raw
      | Batch_command from_user now args \<Rightarrow> list_all isascii args
      | _ \<Rightarrow> True)"

section \<open>Facts about strings\<close>

lemma valid_format_iff:
  "valid_format s \<longleftrightarrow>
     (\<exists>ds. s = CHR ''+'' # ds \<and> 7 \<le> length ds \<and> length ds \<le> 15 \<and> list_all isdigit_char ds)"
  by (cases s) (auto simp: valid_format_def startswith_def isdigit_def)

lemma regex_imp_valid: "matches_phone_regex s \<Longrightarrow> valid_format s"
  by (cases s) (auto simp: matches_phone_regex_def valid_format_iff isdigit_char_def list_all_iff)

lemma ascii_digit_decimal: "isdigit_char c \<Longrightarrow> (of_char c :: nat) < 128 \<Longrightarrow> isdecimal_char c"
  by (auto simp: isdigit_char_def)

lemma valid_format_ascii: "isascii s \<Longrightarrow> valid_format s \<longleftrightarrow> matches_phone_regex s"
proof
  assume a: "isascii s" and v: "valid_format s"
  then obtain ds where s: "s = CHR ''+'' # ds" and n: "7 \<le> length ds" "length ds \<le> 15"
    and d: "list_all isdigit_char ds"
    by (auto simp: valid_format_iff)
  from a d have "list_all isdecimal_char ds"
    by (auto simp: s isascii_def list_all_iff intro: ascii_digit_decimal)
  with n show "matches_phone_regex s" by (simp add: s matches_phone_regex_def)
next
  assume "matches_phone_regex s"
  then show "valid_format s" by (rule regex_imp_valid)
qed

lemma isascii_strip: "isascii s \<Longrightarrow> isascii (strip s)"
proof -
  have "set (strip s) \<subseteq> set s"
    by (auto simp: strip_def dest!: set_dropWhileD)
  then show "isascii s \<Longrightarrow> isascii (strip s)"
    by (auto simp: isascii_def list_all_iff)
qed

lemma valid_ascii_stripped:
  "isascii raw \<Longrightarrow> valid_format (strip raw) \<Longrightarrow> matches_phone_regex (strip raw)"
  using valid_format_ascii [OF isascii_strip] by blast

lemma plus_not_space: "\<not> isspace_char (CHR ''+'')"
  by (simp add: isspace_char_def)

lemma digit_not_space: "isdigit_char c \<Longrightarrow> \<not> isspace_char c"
  by (auto simp: isdigit_char_def isdecimal_char_def isspace_char_def)

lemma strip_padded:
  assumes "list_all isspace_char ws1" "list_all isspace_char ws2" "valid_format p"
  shows "strip (ws1 @ p @ ws2) = p"
proof -
  from assms(3) obtain ds where p: "p = CHR ''+'' # ds" and n: "7 \<le> length ds"
    and d: "list_all isdigit_char ds"
    by (auto simp: valid_format_iff)
  from n have "ds \<noteq> []" by auto
  then obtain ds' c where ds: "ds = ds' @ [c]" by (metis rev_exhaust)
  with d have c: "\<not> isspace_char c" by (simp add: digit_not_space)
  have lead: "dropWhile isspace_char (ws1 @ p @ ws2) = p @ ws2"
    using assms(1) by (simp add: p plus_not_space list_all_iff dropWhile_append)
  have trail: "dropWhile isspace_char (rev (p @ ws2)) = rev p"
    using assms(2) c by (simp add: p ds list_all_iff dropWhile_append)
  show ?thesis unfolding strip_def lead trail by simp
qed

lemma strip_valid: "valid_format p \<Longrightarrow> strip p = p"
  using strip_padded [of "[]" "[]" p] by simp

lemma valid_example: "valid_format ''+11234567890''"
  by (simp add: valid_format_def startswith_def isdigit_def isdigit_char_def isdecimal_char_def)

lemma invalid_example: "\<not> valid_format ''abc''"
  by (simp add: valid_format_def startswith_def)

declare decimal.simps [simp del]

lemma decimal_no_plus: "decimal n \<noteq> [] \<and> hd (decimal n) \<noteq> CHR ''+''"
proof (induction n rule: decimal.induct)
  case (1 n)
  show ?case
  proof (cases "n < 10")
    case True
    then have "n \<in> {0, 1, 2, 3, 4, 5, 6, 7, 8, 9}" by auto
    then show ?thesis
      by (subst (1 2) decimal.simps) auto
  next
    case False
    with 1 show ?thesis
      by (subst (1 2) decimal.simps) simp
  qed
qed

lemma int_text_invalid: "\<not> valid_format (int_text i)"
  using decimal_no_plus [of "nat i"]
  by (cases "decimal (nat i)") (auto simp: int_text_def valid_format_def startswith_def)

section \<open>Facts about the table\<close>

lemma number_exists_append [simp]:
  "number_exists (db @ [r]) p \<longleftrightarrow> number_exists db p \<or> phone_number r = Some p"
  by (auto simp: number_exists_def)

lemma number_exists_Cons [simp]:
  "number_exists (r # db) p \<longleftrightarrow> phone_number r = Some p \<or> number_exists db p"
  by (auto simp: number_exists_def)

lemma number_exists_Nil [simp]: "\<not> number_exists [] p"
  by (simp add: number_exists_def)

lemma unique_phones_append:
  "unique_phones (db @ [r]) \<longleftrightarrow> unique_phones db \<and> \<not> unique_conflict db r"
  by (cases "phone_number r") (auto simp: unique_phones_def unique_conflict_def number_exists_def)

lemma format_rule_append:
  "format_rule_holds (db @ [r]) \<longleftrightarrow>
     format_rule_holds db \<and> (\<exists>p. phone_number r = Some p \<and> matches_phone_regex p)"
  by (cases "phone_number r") (auto simp: format_rule_holds_def)

lemma new_client_sel [simp]:
  "phone_number (new_client u p t) = Some p"
  "username (new_client u p t) = Some u"
  "added_time (new_client u p t) = Some t"
  by (simp_all add: new_client_def)

lemma unique_conflict_new [simp]: "unique_conflict db (new_client u p t) = number_exists db p"
  by (simp add: unique_conflict_def)

lemma add_number_eq:
  "add_number db u p t = (PyNone, if number_exists db p then db else db @ [new_client u p t])"
  by (simp add: add_number_def sql_insert_def)

lemma handle_message_eq:
  "handle_message db fu now raw =
     (if \<not> valid_format (strip raw) then (Invalid_format, db)
      else if number_exists db (strip raw) then (Already_exists (strip raw), db)
      else (Saved (strip raw), db @ [new_client (or_unknown fu) (strip raw) now]))"
  by (simp add: handle_message_def Let_def add_number_eq)

subsection \<open>The loop of \<open>batch_input\<close>\<close>

lemma batch_loop_total: "\<exists>st'. batch_loop u t args st = Inr st'"
proof (induction args arbitrary: st)
  case Nil
  show ?case by (cases st) simp
next
  case (Cons raw rest)
  obtain conn a e i where st: "st = (conn, a, e, i)" by (cases st) auto
  show ?case using Cons.IH
    by (simp add: st Let_def sql_insert_def)
qed

lemma batch_input_total: "\<exists>reply db'. batch_input db fu now args = Inr (reply, db')"
proof (cases "args = []")
  case True
  then show ?thesis by (simp add: batch_input_def)
next
  case False
  obtain st where "batch_loop (or_unknown fu) now args (db, [], [], []) = Inr st"
    using batch_loop_total by blast
  with False show ?thesis
    by (cases st) (auto simp: batch_input_def)
qed

lemma batch_loop_append:
  "batch_loop u t (xs @ ys) st =
     (case batch_loop u t xs st of Inl e \<Rightarrow> Inl e | Inr st' \<Rightarrow> batch_loop u t ys st')"
proof (induction xs arbitrary: st)
  case Nil
  show ?case by simp
next
  case (Cons raw rest)
  obtain conn a e i where st: "st = (conn, a, e, i)" by (cases st) auto
  show ?case
    by (simp add: st Let_def Cons.IH sql_insert_def)
qed

lemma batch_loop_seen:
  "batch_loop u t xs (conn, a, e, i) = Inr (conn', a', e', i') \<Longrightarrow>
     number_exists conn' p \<longleftrightarrow> number_exists conn p \<or> (valid_format p \<and> p \<in> set (map strip xs))"
proof (induction xs arbitrary: conn a e i)
  case Nil
  then show ?case by simp
next
  case (Cons raw rest)
  then show ?case
    by (auto simp: Let_def sql_insert_def split: if_splits)
qed

lemma batch_loop_counts:
  assumes "valid_format p"
  shows "\<exists>conn' a' e' i'.
           batch_loop u t args (conn, a, e, i) = Inr (conn', a', e', i')
         \<and> count_list a' p =
             count_list a p + (if p \<in> set (map strip args) \<and> \<not> number_exists conn p then 1 else 0)
         \<and> count_list a' p + count_list e' p =
             count_list a p + count_list e p + count_list (map strip args) p
         \<and> count_list i' p = count_list i p"
proof (induction args arbitrary: conn a e i)
  case Nil
  show ?case by simp
next
  case (Cons raw rest)
  show ?case
  proof (cases "valid_format (strip raw)")
    case False
    with assms have ne: "strip raw \<noteq> p" by auto
    show ?thesis
      using Cons.IH [of conn a e "i @ [strip raw]"] False ne by (auto simp: Let_def)
  next
    case True
    show ?thesis
    proof (cases "number_exists conn (strip raw)")
      case dup: True
      show ?thesis
        using Cons.IH [of conn a "e @ [strip raw]" i] True dup by (auto simp: Let_def)
    next
      case new: False
      show ?thesis
        using Cons.IH [of "conn @ [new_client u (strip raw) t]" "a @ [strip raw]" e i] True new
        by (auto simp: Let_def sql_insert_def)
    qed
  qed
qed

lemma batch_input_counts:
  assumes "valid_format p" and "p \<in> set (map strip args)"
  shows "\<exists>added_list exists_list invalid_list db'.
           batch_input db from_user now args
             = Inr (Batch_result added_list exists_list invalid_list, db')
         \<and> count_list added_list p = (if number_exists db p then 0 else 1)
         \<and> count_list exists_list p = count_list (map strip args) p - count_list added_list p
         \<and> p \<notin> set invalid_list"
proof -
  from assms(2) have ne: "args \<noteq> []" by auto
  obtain conn' a' e' i' where
    run: "batch_loop (or_unknown from_user) now args (db, [], [], []) = Inr (conn', a', e', i')"
    and ca: "count_list a' p =
        count_list [] p + (if p \<in> set (map strip args) \<and> \<not> number_exists db p then 1 else 0)"
    and cs: "count_list a' p + count_list e' p
        = count_list [] p + count_list [] p + count_list (map strip args) p"
    and ci: "count_list i' p = count_list [] p"
    using batch_loop_counts [OF assms(1), of "or_unknown from_user" now args db "[]" "[]" "[]"]
    by blast
  from ci have "p \<notin> set i'" by (simp add: count_list_0_iff)
  with run ca cs ne assms(2) show ?thesis
    by (auto simp: batch_input_def)
qed

lemma batch_loop_later:
  assumes "valid_format (strip raw)" and "strip raw \<in> set (map strip pre)"
  shows "\<exists>conn a e i.
           batch_loop user time pre (db, [], [], []) = Inr (conn, a, e, i)
         \<and> batch_loop user time (pre @ raw # post) (db, [], [], [])
             = batch_loop user time post (conn, a, e @ [strip raw], i)"
proof -
  obtain st where st: "batch_loop user time pre (db, [], [], []) = Inr st"
    using batch_loop_total by blast
  obtain conn a e i where [simp]: "st = (conn, a, e, i)" by (cases st) auto
  from st assms have "number_exists conn (strip raw)"
    by (simp add: batch_loop_seen)
  with st assms(1) show ?thesis
    by (simp add: batch_loop_append Let_def)
qed

lemma batch_loop_strip:
  "map strip xs = map strip ys \<Longrightarrow> batch_loop u t xs st = batch_loop u t ys st"
proof (induction xs arbitrary: ys st)
  case Nil
  then show ?case by simp
next
  case (Cons x xs)
  from Cons.prems obtain y ys' where ys: "ys = y # ys'" and hd: "strip x = strip y"
    and tl: "map strip xs = map strip ys'"
    by (cases ys) auto
  obtain conn a e i where st: "st = (conn, a, e, i)" by (cases st) auto
  show ?case
    by (simp add: ys st hd Let_def Cons.IH [OF tl] split: sum.splits)
qed

lemma batch_input_strip:
  "map strip xs = map strip ys \<Longrightarrow> batch_input db fu now xs = batch_input db fu now ys"
proof -
  assume eq: "map strip xs = map strip ys"
  then have "xs = [] \<longleftrightarrow> ys = []" by (metis map_is_Nil_conv)
  with eq show ?thesis
    by (simp add: batch_input_def batch_loop_strip [OF eq])
qed

subsection \<open>The rows of an import\<close>

lemma insert_or_ignore_mono:
  "number_exists db p \<Longrightarrow> number_exists (sql_insert_or_ignore db r) p"
  by (simp add: sql_insert_or_ignore_def)

lemma insert_or_ignore_covers:
  "phone_number r = Some p \<Longrightarrow> number_exists (sql_insert_or_ignore db r) p"
  by (simp add: sql_insert_or_ignore_def unique_conflict_def)

lemma import_rows_mono:
  "import_rows conn cols rs = Inr conn' \<Longrightarrow> number_exists conn p \<Longrightarrow> number_exists conn' p"
proof (induction rs arbitrary: conn)
  case Nil
  then show ?case by simp
next
  case (Cons row rest)
  then show ?case
    by (auto split: sum.splits simp: insert_or_ignore_mono)
qed

lemma import_rows_covers:
  "import_rows conn cols rs = Inr conn' \<Longrightarrow> row \<in> set rs \<Longrightarrow>
     \<exists>r. row_params cols row = Inr r \<and> (\<forall>p. phone_number r = Some p \<longrightarrow> number_exists conn' p)"
proof (induction rs arbitrary: conn)
  case Nil
  then show ?case by simp
next
  case (Cons first rest)
  from Cons.prems(1) obtain r where r: "row_params cols first = Inr r"
    and rest: "import_rows (sql_insert_or_ignore conn r) cols rest = Inr conn'"
    by (auto split: sum.splits)
  show ?case
  proof (cases "row = first")
    case True
    with r rest show ?thesis
      by (auto intro: import_rows_mono insert_or_ignore_covers)
  next
    case False
    with Cons.prems(2) have "row \<in> set rest" by simp
    with Cons.IH rest show ?thesis by blast
  qed
qed

lemma import_rows_idle:
  "\<forall>row \<in> set rs. \<exists>r. row_params cols row = Inr r \<and> unique_conflict conn r \<Longrightarrow>
     import_rows conn cols rs = Inr conn"
  by (induction rs) (auto simp: sql_insert_or_ignore_def)

lemma bind_param_present: "bind_param v = Inr x \<Longrightarrow> v \<noteq> NaN \<Longrightarrow> \<exists>y. x = Some y"
  by (cases v) (auto simp: bind_param_def split: if_splits)

lemma row_params_phone:
  "row_params cols row = Inr r \<Longrightarrow> getitem cols row ''phone_number'' \<noteq> Inr NaN \<Longrightarrow>
     phone_number r \<noteq> None"
  by (auto simp: row_params_def split: sum.splits dest: bind_param_present)


lemma int_text_example: "int_text 11234567890 = ''11234567890''"
  by (simp add: int_text_def decimal.simps)

lemma row_params_integer:
  "- (2 ^ 63) \<le> n \<Longrightarrow> n < 2 ^ 63 \<Longrightarrow>
     row_params [''username'', ''phone_number'', ''added_time''] [Str u, Integer n, Str t]
       = Inr (new_client u (int_text n) t)"
  by (simp add: row_params_def getitem_def bind_param_def new_client_def)

text \<open>
  A frame whose phone cells are integers: each row is stored under the decimal text of
  its number, which never passes the format check.
\<close>

lemma integer_phone_stored_as_text:
  assumes "- (2 ^ 63) \<le> n" and "n < 2 ^ 63"
  shows "import_data db
           (Inr \<lparr>columns = [''username'', ''phone_number'', ''added_time''],
                 rows = [[Str u, Integer n, Str t]]\<rparr>)
         = (Import_ok,
            if number_exists db (int_text n) then db else db @ [new_client u (int_text n) t])
       \<and> \<not> valid_format (int_text n)"
  using assms
  by (simp add: import_data_def row_params_integer sql_insert_or_ignore_def int_text_invalid)

lemma getitem_missing: "key \<notin> set cols \<Longrightarrow> getitem cols row key = Inl (KeyError key)"
proof -
  assume "key \<notin> set cols"
  then have "key \<notin> fst ` set (zip cols row)"
    by (auto dest: set_zip_leftD)
  then have "map_of (zip cols row) key = None"
    by (simp add: map_of_eq_None_iff)
  then show ?thesis by (simp add: getitem_def)
qed

lemma getitem_Inl: "getitem cols row key = Inl e \<Longrightarrow> e = KeyError key"
  by (auto simp: getitem_def split: option.splits)

lemma row_params_missing:
  "\<not> set [''username'', ''phone_number'', ''added_time''] \<subseteq> set cols \<Longrightarrow>
     \<exists>key. row_params cols row = Inl (KeyError key)"
  by (auto simp: row_params_def getitem_missing split: sum.splits dest: getitem_Inl)

lemma import_data_failed_unchanged:
  "fst (import_data db file) = Import_failed e \<Longrightarrow> snd (import_data db file) = db"
  by (auto simp: import_data_def split: sum.splits)

section \<open>Uniqueness of the phone numbers\<close>

lemma handle_message_unique:
  "unique_phones db \<Longrightarrow> unique_phones (snd (handle_message db fu now raw))"
  by (simp add: handle_message_eq unique_phones_append)

lemma batch_loop_unique:
  "batch_loop u t args (conn, a, e, i) = Inr (conn', a', e', i') \<Longrightarrow> unique_phones conn
     \<Longrightarrow> unique_phones conn'"
proof (induction args arbitrary: conn a e i)
  case Nil
  then show ?case by simp
next
  case (Cons raw rest)
  then show ?case
    by (auto simp: Let_def sql_insert_def unique_phones_append split: if_splits)
qed

lemma batch_input_unique:
  "batch_input db fu now args = Inr (reply, db') \<Longrightarrow> unique_phones db \<Longrightarrow> unique_phones db'"
  by (auto simp: batch_input_def split: if_splits sum.splits dest: batch_loop_unique)

lemma insert_or_ignore_unique:
  "unique_phones db \<Longrightarrow> unique_phones (sql_insert_or_ignore db r)"
  by (simp add: sql_insert_or_ignore_def unique_phones_append)

lemma import_rows_unique:
  "import_rows conn cols rs = Inr conn' \<Longrightarrow> unique_phones conn \<Longrightarrow> unique_phones conn'"
proof (induction rs arbitrary: conn)
  case Nil
  then show ?case by simp
next
  case (Cons row rest)
  then show ?case
    by (auto split: sum.splits simp: insert_or_ignore_unique)
qed

lemma import_data_unique:
  "unique_phones db \<Longrightarrow> unique_phones (snd (import_data db file))"
  by (auto simp: import_data_def split: sum.splits dest: import_rows_unique)

text \<open>
  Claim C1. Each of the three operations that write to the table keeps the phone numbers
  unique: if no two stored rows share a \<open>phone_number\<close> text before a single message, a
  batch or a file import is handled, then none do afterwards. A batch, moreover, always
  runs to its reply.
\<close>

theorem uniqueness_preserved:
  assumes "unique_phones db"
  shows "unique_phones (snd (handle_message db from_user now raw))
       \<and> (\<exists>reply db'. batch_input db from_user now args = Inr (reply, db') \<and> unique_phones db')
       \<and> unique_phones (snd (import_data db file))"
  using assms batch_input_total [of db from_user now args]
  by (auto simp: handle_message_unique import_data_unique dest: batch_input_unique)

theorem uniqueness_preserved_witness:
  "unique_phones [new_client ''alice'' ''+11234567890'' ''2024-01-01 00:00:00'']
   \<and> unique_phones (snd (handle_message
        [new_client ''alice'' ''+11234567890'' ''2024-01-01 00:00:00'']
        (Some ''bob'') ''2024-01-02 00:00:00'' ''+441234567890''))
   \<and> (\<exists>reply db'.
        batch_input [new_client ''alice'' ''+11234567890'' ''2024-01-01 00:00:00'']
          (Some ''bob'') ''2024-01-02 00:00:00'' [''+11234567890'', ''+441234567890'']
        = Inr (reply, db') \<and> unique_phones db')
   \<and> unique_phones (snd (import_data
        [new_client ''alice'' ''+11234567890'' ''2024-01-01 00:00:00'']
        (Inr \<lparr>columns = [''username'', ''phone_number'', ''added_time''],
              rows = [[Str ''bob'', Str ''+11234567890'', Str ''2024-01-02 00:00:00''],
                      [Str ''carol'', Str ''+441234567890'', Str ''2024-01-03 00:00:00'']]\<rparr>)))"
proof -
  have h: "unique_phones [new_client ''alice'' ''+11234567890'' ''2024-01-01 00:00:00'']"
    by (simp add: unique_phones_def)
  show ?thesis
    using h uniqueness_preserved [OF h] by blast
qed

section \<open>The format of the stored numbers\<close>

lemma handle_message_format_rule:
  "format_rule_holds db \<Longrightarrow> isascii raw \<Longrightarrow>
     format_rule_holds (snd (handle_message db fu now raw))"
  by (simp add: handle_message_eq format_rule_append valid_ascii_stripped)

lemma batch_loop_format_rule:
  "batch_loop u t args (conn, a, e, i) = Inr (conn', a', e', i') \<Longrightarrow> format_rule_holds conn
     \<Longrightarrow> list_all isascii args \<Longrightarrow> format_rule_holds conn'"
proof (induction args arbitrary: conn a e i)
  case Nil
  then show ?case by simp
next
  case (Cons raw rest)
  then show ?case
    by (auto simp: Let_def sql_insert_def format_rule_append valid_ascii_stripped
        split: if_splits)
qed

lemma batch_input_format_rule:
  "batch_input db fu now args = Inr (reply, db') \<Longrightarrow> format_rule_holds db
     \<Longrightarrow> list_all isascii args \<Longrightarrow> format_rule_holds db'"
  by (auto simp: batch_input_def split: if_splits sum.splits dest: batch_loop_format_rule)

lemma run_handler_format_rule:
  "format_rule_holds db \<Longrightarrow> \<not> is_import upd \<Longrightarrow> ascii_input upd
     \<Longrightarrow> format_rule_holds (run_handler db upd)"
  by (cases upd)
     (auto simp: run_handler_def is_import_def ascii_input_def handle_message_format_rule
           split: sum.splits dest: batch_input_format_rule)

text \<open>
  Claim C2, as amended. Single messages and batches check every number before they try
  to store it: after any sequence of updates that holds no file import and submits
  ASCII texts only, a table in which every row has a phone number of the format
  \<open>^\+\d{7,15}$\<close> still has only such rows. \<open>import_data\<close> stores the cells of the frame
  without the check.
\<close>

theorem ingestion_keeps_format_rule:
  assumes "format_rule_holds db"
    and "list_all (\<lambda>upd. \<not> is_import upd \<and> ascii_input upd) upds"
  shows "format_rule_holds (foldl run_handler db upds)"
  using assms
proof (induction upds arbitrary: db)
  case Nil
  then show ?case by simp
next
  case (Cons upd upds)
  then show ?case by (simp add: run_handler_format_rule)
qed

theorem ingestion_keeps_format_rule_witness:
  "format_rule_holds []
   \<and> list_all (\<lambda>upd. \<not> is_import upd \<and> ascii_input upd)
        [Text_message (Some ''bob'') ''2024-01-02 00:00:00'' '' +441234567890'',
         Batch_command None ''2024-01-03 00:00:00'' [''+11234567890'', ''abc'']]
   \<and> format_rule_holds (foldl run_handler []
        [Text_message (Some ''bob'') ''2024-01-02 00:00:00'' '' +441234567890'',
         Batch_command None ''2024-01-03 00:00:00'' [''+11234567890'', ''abc'']])"
proof -
  have h1: "format_rule_holds []" by (simp add: format_rule_holds_def)
  have h2: "list_all (\<lambda>upd. \<not> is_import upd \<and> ascii_input upd)
        [Text_message (Some ''bob'') ''2024-01-02 00:00:00'' '' +441234567890'',
         Batch_command None ''2024-01-03 00:00:00'' [''+11234567890'', ''abc'']]"
    by (simp add: is_import_def ascii_input_def isascii_def)
  show ?thesis using h1 h2 ingestion_keeps_format_rule [OF h1 h2] by blast
qed

text \<open>
  The claim as stated fails at a file import: a row whose phone cell is the text \<open>abc\<close>
  is stored, and the table then holds a number that is not of the format.
\<close>

theorem import_stores_unchecked:
  "format_rule_holds []
   \<and> \<not> format_rule_holds (foldl run_handler []
        [Import_command (Inr \<lparr>columns = [''username'', ''phone_number'', ''added_time''],
                        rows = [[Str ''bob'', Str ''abc'', Str ''2024-01-02 00:00:00'']]\<rparr>)])"
  by (simp add: format_rule_holds_def run_handler_def import_data_def row_params_def
      getitem_def bind_param_def sql_insert_or_ignore_def unique_conflict_def
      matches_phone_regex_def)

section \<open>The format check and the rule\<close>

text \<open>
  Claim C3. The format check accepts a plus sign followed by seven superscript twos
  (U+00B2), which the rule \<open>^\+\d{7,15}$\<close> does not match, and \<open>handle_message\<close> stores
  it: \<open>str.isdigit\<close> holds for more than the decimal digits. On ASCII strings the check
  and the rule agree (\<open>valid_format_ascii\<close>).
\<close>

theorem superscript_digits_accepted:
  "valid_format [CHR ''+'', CHR 0xB2, CHR 0xB2, CHR 0xB2, CHR 0xB2, CHR 0xB2, CHR 0xB2, CHR 0xB2]
   \<and> \<not> matches_phone_regex
        [CHR ''+'', CHR 0xB2, CHR 0xB2, CHR 0xB2, CHR 0xB2, CHR 0xB2, CHR 0xB2, CHR 0xB2]
   \<and> handle_message [] (Some ''bob'') ''2024-01-02 00:00:00''
        [CHR ''+'', CHR 0xB2, CHR 0xB2, CHR 0xB2, CHR 0xB2, CHR 0xB2, CHR 0xB2, CHR 0xB2]
      = (Saved [CHR ''+'', CHR 0xB2, CHR 0xB2, CHR 0xB2, CHR 0xB2, CHR 0xB2, CHR 0xB2, CHR 0xB2],
         [new_client ''bob''
            [CHR ''+'', CHR 0xB2, CHR 0xB2, CHR 0xB2, CHR 0xB2, CHR 0xB2, CHR 0xB2, CHR 0xB2]
            ''2024-01-02 00:00:00''])"
  by (simp add: valid_format_def matches_phone_regex_def startswith_def isdigit_def
      isdigit_char_def isdecimal_char_def handle_message_eq strip_def isspace_char_def
      or_unknown_def)

section \<open>What \<open>add_number\<close> returns\<close>

text \<open>
  Claim C4, as amended. \<open>add_number\<close> stores the row when no stored row has its phone
  number and leaves the table as it is otherwise; in both cases it returns \<open>None\<close>, not
  a boolean.
\<close>

theorem add_number_returns_none:
  "add_number db user phone time =
     (PyNone, if number_exists db phone then db else db @ [new_client user phone time])"
  by (simp add: add_number_def sql_insert_def)

theorem add_number_returns_none_witness:
  "add_number [] ''bob'' ''+11234567890'' ''2024-01-02 00:00:00''
     = (PyNone, [new_client ''bob'' ''+11234567890'' ''2024-01-02 00:00:00''])
   \<and> add_number [new_client ''bob'' ''+11234567890'' ''2024-01-02 00:00:00'']
        ''carol'' ''+11234567890'' ''2024-01-03 00:00:00''
     = (PyNone, [new_client ''bob'' ''+11234567890'' ''2024-01-02 00:00:00''])"
  using add_number_returns_none [of "[]" "''bob''" "''+11234567890''" "''2024-01-02 00:00:00''"]
    add_number_returns_none [of "[new_client ''bob'' ''+11234567890'' ''2024-01-02 00:00:00'']"
      "''carol''" "''+11234567890''" "''2024-01-03 00:00:00''"]
  by simp

text \<open>
  The claim as stated fails where the number was absent: the row is stored, and the value
  returned is not \<open>True\<close>.
\<close>

theorem add_number_no_boolean:
  "\<not> number_exists [] ''+11234567890''
   \<and> snd (add_number [] ''bob'' ''+11234567890'' ''2024-01-02 00:00:00'')
       = [new_client ''bob'' ''+11234567890'' ''2024-01-02 00:00:00'']
   \<and> fst (add_number [] ''bob'' ''+11234567890'' ''2024-01-02 00:00:00'') \<noteq> PyBool True"
  by (simp add: add_number_def sql_insert_def)

section \<open>The same number twice\<close>

text \<open>
  Claim C5. A number that passes the format check and is not in the table is saved by
  the first \<open>handle_message\<close>, after which the table holds it, and the second
  \<open>handle_message\<close> with the same number replies that it exists and changes nothing.
\<close>

theorem twice_saved_then_exists:
  assumes "valid_format p" and "\<not> number_exists db p"
  shows "handle_message db u1 t1 p = (Saved p, db @ [new_client (or_unknown u1) p t1])
       \<and> number_exists (snd (handle_message db u1 t1 p)) p
       \<and> handle_message (snd (handle_message db u1 t1 p)) u2 t2 p
           = (Already_exists p, snd (handle_message db u1 t1 p))"
  using assms by (simp add: handle_message_eq strip_valid)

theorem twice_saved_then_exists_witness:
  "valid_format ''+11234567890'' \<and> \<not> number_exists [] ''+11234567890''
   \<and> handle_message [] (Some ''bob'') ''2024-01-02 00:00:00'' ''+11234567890''
       = (Saved ''+11234567890'', [new_client ''bob'' ''+11234567890'' ''2024-01-02 00:00:00''])
   \<and> handle_message [new_client ''bob'' ''+11234567890'' ''2024-01-02 00:00:00'']
        (Some ''carol'') ''2024-01-03 00:00:00'' ''+11234567890''
       = (Already_exists ''+11234567890'',
          [new_client ''bob'' ''+11234567890'' ''2024-01-02 00:00:00''])"
proof -
  have h1: "valid_format ''+11234567890''" by (rule valid_example)
  have h2: "\<not> number_exists [] ''+11234567890''" by simp
  show ?thesis
    using h1 h2 twice_saved_then_exists [OF h1 h2, of "Some ''bob''" "''2024-01-02 00:00:00''"
        "Some ''carol''" "''2024-01-03 00:00:00''"]
    by (auto simp: or_unknown_def)
qed

section \<open>A number repeated in a batch\<close>

text \<open>
  Claim C6. Let a batch hold a number that passes the format check at a position where
  the same number has occurred before. When the loop reaches that position it appends
  the number to \<open>exists_list\<close> and changes neither the table nor \<open>added_list\<close>. In the
  reply of the whole batch the number is in \<open>added_list\<close> once if the table did not hold
  it before and never otherwise, every other occurrence is in \<open>exists_list\<close>, and none is
  in \<open>invalid_list\<close>.
\<close>

theorem later_occurrence_exists:
  assumes "valid_format (strip raw)" and "strip raw \<in> set (map strip pre)"
  shows "(\<exists>conn a e i.
            batch_loop (or_unknown from_user) now pre (db, [], [], []) = Inr (conn, a, e, i)
          \<and> batch_loop (or_unknown from_user) now (pre @ raw # post) (db, [], [], [])
              = batch_loop (or_unknown from_user) now post (conn, a, e @ [strip raw], i))
       \<and> (\<exists>added_list exists_list invalid_list db'.
            batch_input db from_user now (pre @ raw # post)
              = Inr (Batch_result added_list exists_list invalid_list, db')
          \<and> count_list added_list (strip raw) = (if number_exists db (strip raw) then 0 else 1)
          \<and> count_list exists_list (strip raw)
              = count_list (map strip (pre @ raw # post)) (strip raw)
                - count_list added_list (strip raw)
          \<and> strip raw \<notin> set invalid_list)"
proof -
  have "strip raw \<in> set (map strip (pre @ raw # post))" by simp
  with assms(1) batch_input_counts [of "strip raw" "pre @ raw # post" db from_user now]
    batch_loop_later [OF assms, of "or_unknown from_user" now db post]
  show ?thesis by blast
qed

theorem later_occurrence_exists_witness:
  "valid_format (strip ''+11234567890'')
   \<and> strip ''+11234567890'' \<in> set (map strip [''+11234567890''])
   \<and> batch_input [] None ''2024-01-02 00:00:00'' [''+11234567890'', ''+11234567890'', ''abc'']
       = Inr (Batch_result [''+11234567890''] [''+11234567890''] [''abc''],
              [new_client ''unknown'' ''+11234567890'' ''2024-01-02 00:00:00''])
   \<and> (\<exists>added_list exists_list invalid_list db'.
         batch_input [] None ''2024-01-02 00:00:00''
           ([''+11234567890''] @ ''+11234567890'' # [''abc''])
           = Inr (Batch_result added_list exists_list invalid_list, db')
       \<and> count_list added_list (strip ''+11234567890'')
           = (if number_exists [] (strip ''+11234567890'') then 0 else 1)
       \<and> count_list exists_list (strip ''+11234567890'')
           = count_list (map strip ([''+11234567890''] @ ''+11234567890'' # [''abc'']))
               (strip ''+11234567890'')
             - count_list added_list (strip ''+11234567890'')
       \<and> strip ''+11234567890'' \<notin> set invalid_list)"
proof -
  have s: "strip ''+11234567890'' = ''+11234567890''"
    by (rule strip_valid) (rule valid_example)
  have h1: "valid_format (strip ''+11234567890'')" by (simp add: s valid_example)
  have h2: "strip ''+11234567890'' \<in> set (map strip [''+11234567890''])" by simp
  have run: "batch_input [] None ''2024-01-02 00:00:00''
       [''+11234567890'', ''+11234567890'', ''abc'']
       = Inr (Batch_result [''+11234567890''] [''+11234567890''] [''abc''],
              [new_client ''unknown'' ''+11234567890'' ''2024-01-02 00:00:00''])"
    by (simp add: batch_input_def s valid_example invalid_example sql_insert_def or_unknown_def
        strip_def isspace_char_def Let_def)
  show ?thesis
    using h1 h2 run
      later_occurrence_exists [OF h1 h2, of None "''2024-01-02 00:00:00''" "[]" "[''abc'']"]
    by blast
qed

section \<open>Importing a file twice\<close>

text \<open>
  Claim C7, as amended. Take a file for which \<open>pd.read_excel\<close> returns no NaN in the
  column \<open>phone_number\<close>. A second import right after the first leaves the table as the
  first import left it; and when the first import reported success, so does the second,
  every row being dropped as a duplicate.
\<close>

theorem import_twice_same:
  assumes "no_missing_phone file"
  shows "snd (import_data (snd (import_data db file)) file) = snd (import_data db file)
       \<and> (fst (import_data db file) = Import_ok \<longrightarrow>
            import_data (snd (import_data db file)) file
              = (Import_ok, snd (import_data db file)))"
proof (cases "file")
  case (Inl e)
  then show ?thesis by (simp add: import_data_def)
next
  case (Inr df)
  show ?thesis
  proof (cases "import_rows db (columns df) (rows df)")
    case (Inl e)
    with Inr show ?thesis by (simp add: import_data_def)
  next
    case ok: (Inr conn)
    have "\<forall>row \<in> set (rows df). \<exists>r. row_params (columns df) row = Inr r \<and> unique_conflict conn r"
    proof
      fix row assume row: "row \<in> set (rows df)"
      with ok obtain r where r: "row_params (columns df) row = Inr r"
        and seen: "\<forall>p. phone_number r = Some p \<longrightarrow> number_exists conn p"
        using import_rows_covers by blast
      from assms Inr row have "getitem (columns df) row ''phone_number'' \<noteq> Inr NaN"
        by (simp add: no_missing_phone_def list_all_iff)
      with r have "phone_number r \<noteq> None" by (rule row_params_phone)
      with seen have "unique_conflict conn r"
        by (auto simp: unique_conflict_def)
      with r show "\<exists>r. row_params (columns df) row = Inr r \<and> unique_conflict conn r" by blast
    qed
    then have "import_rows conn (columns df) (rows df) = Inr conn"
      by (rule import_rows_idle)
    with Inr ok show ?thesis by (simp add: import_data_def)
  qed
qed

text \<open>
  The instance is the frame of a sheet whose two phone numbers are \<open>+11234567890\<close> and
  \<open>+441234567890\<close>: \<open>pd.read_excel\<close> returns them as integers, and the table holds their
  decimal texts.
\<close>

theorem import_twice_same_witness:
  "no_missing_phone
     (Inr \<lparr>columns = [''username'', ''phone_number'', ''added_time''],
           rows = [[Str ''alice'', Integer 11234567890, Str ''2024-01-01 00:00:00''],
                   [Str ''bob'', Integer 441234567890, Str ''2024-01-02 00:00:00'']]\<rparr>)
   \<and> import_data []
       (Inr \<lparr>columns = [''username'', ''phone_number'', ''added_time''],
             rows = [[Str ''alice'', Integer 11234567890, Str ''2024-01-01 00:00:00''],
                     [Str ''bob'', Integer 441234567890, Str ''2024-01-02 00:00:00'']]\<rparr>)
     = (Import_ok, [new_client ''alice'' ''11234567890'' ''2024-01-01 00:00:00'',
                    new_client ''bob'' ''441234567890'' ''2024-01-02 00:00:00''])
   \<and> import_data [new_client ''alice'' ''11234567890'' ''2024-01-01 00:00:00'',
                  new_client ''bob'' ''441234567890'' ''2024-01-02 00:00:00'']
       (Inr \<lparr>columns = [''username'', ''phone_number'', ''added_time''],
             rows = [[Str ''alice'', Integer 11234567890, Str ''2024-01-01 00:00:00''],
                     [Str ''bob'', Integer 441234567890, Str ''2024-01-02 00:00:00'']]\<rparr>)
     = (Import_ok, [new_client ''alice'' ''11234567890'' ''2024-01-01 00:00:00'',
                    new_client ''bob'' ''441234567890'' ''2024-01-02 00:00:00''])"
proof -
  have h: "no_missing_phone
     (Inr \<lparr>columns = [''username'', ''phone_number'', ''added_time''],
           rows = [[Str ''alice'', Integer 11234567890, Str ''2024-01-01 00:00:00''],
                   [Str ''bob'', Integer 441234567890, Str ''2024-01-02 00:00:00'']]\<rparr>)"
    by (simp add: no_missing_phone_def getitem_def)
  have t1: "int_text 11234567890 = ''11234567890''"
    by (simp add: int_text_def decimal.simps)
  have t2: "int_text 441234567890 = ''441234567890''"
    by (simp add: int_text_def decimal.simps)
  have first: "import_data []
       (Inr \<lparr>columns = [''username'', ''phone_number'', ''added_time''],
             rows = [[Str ''alice'', Integer 11234567890, Str ''2024-01-01 00:00:00''],
                     [Str ''bob'', Integer 441234567890, Str ''2024-01-02 00:00:00'']]\<rparr>)
     = (Import_ok, [new_client ''alice'' ''11234567890'' ''2024-01-01 00:00:00'',
                    new_client ''bob'' ''441234567890'' ''2024-01-02 00:00:00''])"
    by (simp add: import_data_def row_params_integer t1 t2 sql_insert_or_ignore_def)
  show ?thesis
    using h first import_twice_same [OF h, of "[]"] by simp
qed

text \<open>
  The claim as stated fails at a file with an empty phone cell: the frame has NaN there,
  which is stored as NULL, and the UNIQUE constraint never rejects NULL, so the second
  import adds the row again.
\<close>

theorem empty_phone_imported_again:
  "import_data []
     (Inr \<lparr>columns = [''username'', ''phone_number'', ''added_time''],
           rows = [[Str ''bob'', NaN, Str ''2024-01-02 00:00:00'']]\<rparr>)
     = (Import_ok, [\<lparr>username = Some ''bob'', phone_number = None,
                     added_time = Some ''2024-01-02 00:00:00''\<rparr>])
   \<and> import_data [\<lparr>username = Some ''bob'', phone_number = None,
                     added_time = Some ''2024-01-02 00:00:00''\<rparr>]
     (Inr \<lparr>columns = [''username'', ''phone_number'', ''added_time''],
           rows = [[Str ''bob'', NaN, Str ''2024-01-02 00:00:00'']]\<rparr>)
     = (Import_ok, [\<lparr>username = Some ''bob'', phone_number = None,
                     added_time = Some ''2024-01-02 00:00:00''\<rparr>,
                    \<lparr>username = Some ''bob'', phone_number = None,
                     added_time = Some ''2024-01-02 00:00:00''\<rparr>])"
  by (simp add: import_data_def row_params_def getitem_def bind_param_def
      sql_insert_or_ignore_def unique_conflict_def)

section \<open>A file with a malformed row\<close>




section \<open>A file that cannot be parsed\<close>

text \<open>
  Claim C9, as amended. When \<open>pd.read_excel\<close> raises, or when the frame has at least one
  row and lacks one of the three columns, the import returns one failure reply and the
  table is exactly what it was before.
\<close>

theorem unparsed_file_applies_nothing:
  assumes "case file of Inl e \<Rightarrow> True | Inr df \<Rightarrow> missing_column df \<and> rows df \<noteq> []"
  shows "\<exists>e. import_data db file = (Import_failed e, db)"
proof (cases "file")
  case (Inl e)
  then show ?thesis by (simp add: import_data_def)
next
  case (Inr df)
  with assms have m: "missing_column df" and ne: "rows df \<noteq> []" by simp_all
  from ne obtain row rest where rs: "rows df = row # rest" by (cases "rows df") auto
  from m have "\<not> set [''username'', ''phone_number'', ''added_time''] \<subseteq> set (columns df)"
    by (simp add: missing_column_def)
  then obtain key where "row_params (columns df) row = Inl (KeyError key)"
    using row_params_missing by blast
  with Inr show ?thesis by (simp add: import_data_def rs)
qed

theorem unparsed_file_applies_nothing_witness:
  "missing_column \<lparr>columns = [''name'', ''phone''], rows = [[Str ''bob'', Str ''+11234567890'']]\<rparr>
   \<and> rows \<lparr>columns = [''name'', ''phone''], rows = [[Str ''bob'', Str ''+11234567890'']]\<rparr> \<noteq> []
   \<and> (\<exists>e. import_data [new_client ''alice'' ''+441234567890'' ''2024-01-01 00:00:00'']
          (Inr \<lparr>columns = [''name'', ''phone''], rows = [[Str ''bob'', Str ''+11234567890'']]\<rparr>)
        = (Import_failed e, [new_client ''alice'' ''+441234567890'' ''2024-01-01 00:00:00'']))
   \<and> (\<exists>e. import_data [new_client ''alice'' ''+441234567890'' ''2024-01-01 00:00:00'']
          (Inl ReadError)
        = (Import_failed e, [new_client ''alice'' ''+441234567890'' ''2024-01-01 00:00:00'']))"
proof -
  have h1: "missing_column
      \<lparr>columns = [''name'', ''phone''], rows = [[Str ''bob'', Str ''+11234567890'']]\<rparr>"
    by (simp add: missing_column_def)
  have h2: "rows \<lparr>columns = [''name'', ''phone''], rows = [[Str ''bob'', Str ''+11234567890'']]\<rparr>
      \<noteq> []"
    by simp
  have h3: "case Inr \<lparr>columns = [''name'', ''phone''],
                        rows = [[Str ''bob'', Str ''+11234567890'']]\<rparr>
            of Inl (e :: py_exception) \<Rightarrow> True | Inr df \<Rightarrow> missing_column df \<and> rows df \<noteq> []"
    using h1 h2 by simp
  have h4: "case Inl ReadError
            of Inl (e :: py_exception) \<Rightarrow> True | Inr df \<Rightarrow> missing_column df \<and> rows df \<noteq> []"
    by simp
  show ?thesis
    using h1 h2 unparsed_file_applies_nothing [OF h3] unparsed_file_applies_nothing [OF h4]
    by blast
qed

text \<open>
  The claim as stated fails at a sheet that has a header without the expected columns
  and no rows below it: the loop has nothing to read and the import reports success.
\<close>

theorem header_only_file_succeeds:
  "missing_column \<lparr>columns = [''name'', ''phone''], rows = []\<rparr>
   \<and> import_data [] (Inr \<lparr>columns = [''name'', ''phone''], rows = []\<rparr>) = (Import_ok, [])"
  by (simp add: missing_column_def import_data_def)

section \<open>Whitespace around a number\<close>

text \<open>
  Claim C10. A number that passes the format check, with whitespace before and after it,
  is handled as the number alone: \<open>handle_message\<close> gives the same reply and the same
  table, echoes and stores the number without the whitespace, and \<open>batch_input\<close> does the
  same wherever the padded number stands in the batch.
\<close>

theorem padding_is_stripped:
  assumes "list_all isspace_char ws1" and "list_all isspace_char ws2" and "valid_format p"
  shows "handle_message db from_user now (ws1 @ p @ ws2) = handle_message db from_user now p
       \<and> handle_message db from_user now (ws1 @ p @ ws2)
           = (if number_exists db p then (Already_exists p, db)
              else (Saved p, db @ [new_client (or_unknown from_user) p now]))
       \<and> batch_input db from_user now (pre @ (ws1 @ p @ ws2) # post)
           = batch_input db from_user now (pre @ p # post)
       \<and> batch_input db from_user now [ws1 @ p @ ws2]
           = Inr (if number_exists db p then (Batch_result [] [p] [], db)
                  else (Batch_result [p] [] [], db @ [new_client (or_unknown from_user) p now]))"
proof -
  have s1: "strip (ws1 @ p @ ws2) = p" using assms by (rule strip_padded)
  have s2: "strip p = p" using assms(3) by (rule strip_valid)
  have "batch_input db from_user now (pre @ (ws1 @ p @ ws2) # post)
           = batch_input db from_user now (pre @ p # post)"
    by (rule batch_input_strip) (simp add: s1 s2)
  moreover have "batch_input db from_user now [ws1 @ p @ ws2]
           = Inr (if number_exists db p then (Batch_result [] [p] [], db)
                  else (Batch_result [p] [] [], db @ [new_client (or_unknown from_user) p now]))"
    using assms(3) by (simp add: batch_input_def s1 sql_insert_def)
  ultimately show ?thesis
    using assms(3) by (simp add: handle_message_eq s1 s2)
qed

theorem padding_is_stripped_witness:
  "list_all isspace_char [CHR 0x20, CHR 0x09] \<and> list_all isspace_char [CHR 0x0A]
   \<and> valid_format ''+11234567890''
   \<and> handle_message [] (Some ''bob'') ''2024-01-02 00:00:00''
       ([CHR 0x20, CHR 0x09] @ ''+11234567890'' @ [CHR 0x0A])
       = (Saved ''+11234567890'', [new_client ''bob'' ''+11234567890'' ''2024-01-02 00:00:00''])
   \<and> batch_input [] (Some ''bob'') ''2024-01-02 00:00:00''
       [[CHR 0x20, CHR 0x09] @ ''+11234567890'' @ [CHR 0x0A]]
       = Inr (Batch_result [''+11234567890''] [] [],
              [new_client ''bob'' ''+11234567890'' ''2024-01-02 00:00:00''])"
proof -
  have h1: "list_all isspace_char [CHR 0x20, CHR 0x09]" by (simp add: isspace_char_def)
  have h2: "list_all isspace_char [CHR 0x0A]" by (simp add: isspace_char_def)
  have h3: "valid_format ''+11234567890''" by (rule valid_example)
  show ?thesis
    using h1 h2 h3
      padding_is_stripped [OF h1 h2 h3, of "[]" "Some ''bob''" "''2024-01-02 00:00:00''" "[]" "[]"]
    by (auto simp: or_unknown_def)
qed

end
